theory Spec2Isabelle
  imports Complex_Main "HOL-Library.Word" "HOL-Library.Log_Nat"
begin

unbundle bit_operations_syntax

section \<open>Errors\<close>

text \<open>
  The notebook \<^verbatim>\<open>examples/vlm_embeddings_examples.ipynb\<close> catches nothing: every
  exception of a library call ends the cell. The exceptions that the modelled calls can
  raise are values of one datatype, and a call that can raise returns \<open>py_error + 'a\<close>.

  \<^item> \<open>ValueError_shapes_not_aligned n m\<close>: what \<^verbatim>\<open>np.dot\<close> raises on two one-dimensional
    arrays of shapes \<open>(n,)\<close> and \<open>(m,)\<close> with \<open>n \<noteq> m\<close>
    (\<^verbatim>\<open>ValueError: shapes (n,) and (m,) not aligned\<close>).
  \<^item> \<open>IndexError\<close>: \<^verbatim>\<open>xs[0]\<close> on an empty list.
  \<^item> \<open>UnicodeDecodeError\<close>: \<^verbatim>\<open>bytes.decode('utf-8')\<close> on bytes that are not UTF-8.
  \<^item> \<open>OSError\<close>: \<^verbatim>\<open>Image.save\<close> cannot write the image as PNG.
  \<^item> \<open>APIError\<close>: the HTTP client failed.
  \<^item> \<open>Base64Error\<close> and \<open>NotADataURI\<close>: raised by nothing in the notebook; they are the
    failures of reading a data URI back, which the specification talks about.
\<close>

datatype py_error =
    ValueError_shapes_not_aligned nat nat
  | IndexError
  | UnicodeDecodeError
  | OSError
  | APIError
  | Base64Error
  | NotADataURI

section \<open>The similarity scorer\<close>

text \<open>
  \<^verbatim>\<open>
  def cosine_similarity(a, b):
      a = np.array(a)
      b = np.array(b)
      return np.dot(a, b)
  \<close>
  An embedding is a list of floating-point numbers, and \<^verbatim>\<open>np.array\<close> of a flat list of
  floats is a one-dimensional float64 array with the same elements, of shape
  \<open>(length xs,)\<close>. The scorer is modelled twice.

  \<^item> This section is the scorer over exact arithmetic: a float is read as the real number
    it denotes, and every product and every sum is the exact one. Rounding, infinities
    and NaN are outside this reading.
  \<^item> The next section is the scorer as it runs, in float64: the same loop, with every
    product and every sum rounded to the nearest double.

  Both readings take the same decision on the shapes and run the same loop; they agree
  whenever no product and no running sum needs rounding (\<open>score_float64_exact\<close> below).
\<close>

type_synonym ndarray = "real list"

definition np_array :: "real list \<Rightarrow> ndarray" where
  "np_array xs = xs"

definition shape :: "ndarray \<Rightarrow> nat" where
  "shape a = length a"

text \<open>
  \<^verbatim>\<open>np.dot\<close> on two one-dimensional arrays is the inner product: one accumulator,
  started at zero, to which the product of each pair of components is added in turn.
  It checks first that both shapes agree and raises \<^verbatim>\<open>ValueError\<close> otherwise; a
  one-element array is not broadcast.
\<close>

fun dot_loop :: "real \<Rightarrow> ndarray \<Rightarrow> ndarray \<Rightarrow> real" where
  "dot_loop tmp (x # xs) (y # ys) = dot_loop (tmp + x * y) xs ys"
| "dot_loop tmp _ _ = tmp"

definition np_dot :: "ndarray \<Rightarrow> ndarray \<Rightarrow> py_error + real" where
  "np_dot a b =
     (if shape a \<noteq> shape b then Inl (ValueError_shapes_not_aligned (shape a) (shape b))
      else Inr (dot_loop 0 a b))"

definition cosine_similarity :: "real list \<Rightarrow> real list \<Rightarrow> py_error + real" where
  "cosine_similarity a b = (let a' = np_array a; b' = np_array b in np_dot a' b')"

section \<open>The similarity scorer in float64\<close>

text \<open>
  A float64 is a finite number, an infinity or NaN. A finite one is given by the real
  number it denotes; \<open>- 0.0\<close> and \<open>0.0\<close> are both \<open>Finite 0\<close> (they compare equal,
  and nothing here divides).
\<close>

datatype float64 = Finite real | PosInf | NegInf | NaN

text \<open>
  Rounding to nearest, ties to even (the IEEE 754 default, which numpy does not change).
  A real \<open>x\<close> with \<open>2^e \<le> \<bar>x\<bar> < 2^(e+1)\<close> lies between two neighbouring multiples
  of \<open>2^(e-52)\<close>, the doubles of that binade; below \<open>2^(-1022)\<close> the doubles are the
  multiples of \<open>2^(-1074)\<close> (subnormal numbers). \<open>exponent\<close> computes \<open>e\<close>, not below
  \<open>- 1022\<close>, from the bit length of \<open>\<lfloor>\<bar>x\<bar> * 2^1074\<rfloor>\<close>; \<open>quantum\<close> is the distance of
  the neighbouring doubles; \<open>rne\<close> rounds to the nearest integer, a tie to the even one.
  A result of magnitude \<open>2^1024\<close> or more is an infinity.
\<close>

definition rne :: "real \<Rightarrow> int" where
  "rne y =
     (let f = \<lfloor>y\<rfloor>; d = y - of_int f
      in if d < 1 / 2 then f else if 1 / 2 < d then f + 1 else if even f then f else f + 1)"

definition exponent :: "real \<Rightarrow> int" where
  "exponent x = max (- 1022) (bitlen \<lfloor>\<bar>x\<bar> * 2 ^ 1074\<rfloor> - 1075)"

definition quantum :: "real \<Rightarrow> real" where
  "quantum x = 2 powi (exponent x - 52)"

definition round_f64 :: "real \<Rightarrow> float64" where
  "round_f64 x =
     (let q = quantum x; r = of_int (rne (x / q)) * q
      in if 2 ^ 1024 \<le> r then PosInf else if r \<le> - (2 ^ 1024) then NegInf else Finite r)"

text \<open>
  The reals that are doubles: the multiples of their \<open>quantum\<close> below \<open>2^1024\<close>.
\<close>

definition representable :: "real \<Rightarrow> bool" where
  "representable x \<longleftrightarrow> \<bar>x\<bar> < 2 ^ 1024 \<and> of_int \<lfloor>x / quantum x\<rfloor> = x / quantum x"

text \<open>
  Product and sum of two doubles: the exact result, rounded; the IEEE rules for
  infinities and NaN.
\<close>

fun f64_mul :: "float64 \<Rightarrow> float64 \<Rightarrow> float64" where
  "f64_mul (Finite x) (Finite y) = round_f64 (x * y)"
| "f64_mul NaN _ = NaN"
| "f64_mul _ NaN = NaN"
| "f64_mul (Finite x) PosInf = (if x = 0 then NaN else if 0 < x then PosInf else NegInf)"
| "f64_mul (Finite x) NegInf = (if x = 0 then NaN else if 0 < x then NegInf else PosInf)"
| "f64_mul PosInf (Finite y) = (if y = 0 then NaN else if 0 < y then PosInf else NegInf)"
| "f64_mul NegInf (Finite y) = (if y = 0 then NaN else if 0 < y then NegInf else PosInf)"
| "f64_mul PosInf PosInf = PosInf"
| "f64_mul PosInf NegInf = NegInf"
| "f64_mul NegInf PosInf = NegInf"
| "f64_mul NegInf NegInf = PosInf"

fun f64_add :: "float64 \<Rightarrow> float64 \<Rightarrow> float64" where
  "f64_add (Finite x) (Finite y) = round_f64 (x + y)"
| "f64_add NaN _ = NaN"
| "f64_add _ NaN = NaN"
| "f64_add (Finite x) PosInf = PosInf"
| "f64_add (Finite x) NegInf = NegInf"
| "f64_add PosInf (Finite y) = PosInf"
| "f64_add NegInf (Finite y) = NegInf"
| "f64_add PosInf PosInf = PosInf"
| "f64_add NegInf NegInf = NegInf"
| "f64_add PosInf NegInf = NaN"
| "f64_add NegInf PosInf = NaN"

text \<open>
  The scorer on float64 arrays: the shape check and the accumulator loop of \<open>np_dot\<close>,
  with \<open>f64_mul\<close> and \<open>f64_add\<close> for \<open>*\<close> and \<open>+\<close>. The products are added in the
  order of the indices.
\<close>

definition np_array_float64 :: "float64 list \<Rightarrow> float64 list" where
  "np_array_float64 xs = xs"

fun dot_loop_float64 :: "float64 \<Rightarrow> float64 list \<Rightarrow> float64 list \<Rightarrow> float64" where
  "dot_loop_float64 tmp (x # xs) (y # ys) = dot_loop_float64 (f64_add tmp (f64_mul x y)) xs ys"
| "dot_loop_float64 tmp _ _ = tmp"

definition np_dot_float64 :: "float64 list \<Rightarrow> float64 list \<Rightarrow> py_error + float64" where
  "np_dot_float64 a b =
     (if length a \<noteq> length b then Inl (ValueError_shapes_not_aligned (length a) (length b))
      else Inr (dot_loop_float64 (Finite 0) a b))"

definition cosine_similarity_float64 :: "float64 list \<Rightarrow> float64 list \<Rightarrow> py_error + float64" where
  "cosine_similarity_float64 a b =
     (let a' = np_array_float64 a; b' = np_array_float64 b in np_dot_float64 a' b')"

section \<open>The image encoder\<close>

subsection \<open>Bytes and base64\<close>

text \<open>
  A Python \<^verbatim>\<open>bytes\<close> value is a list of 8-bit words. \<^verbatim>\<open>base64.b64encode\<close> is the
  standard encoding of RFC 4648 with padding: each group of three bytes gives four 6-bit
  values, each looked up in the alphabet \<^verbatim>\<open>A-Z a-z 0-9 + /\<close>; a last group of one or
  two bytes is filled with zero bits and padded with \<^verbatim>\<open>=\<close> to four characters. Its result
  is again \<^verbatim>\<open>bytes\<close>: the ASCII codes of the characters.
\<close>

type_synonym byte = "8 word"
type_synonym sextet = "6 word"

definition byte_of_char :: "char \<Rightarrow> byte" where
  "byte_of_char c = of_nat (of_char c)"

definition char_of_byte :: "byte \<Rightarrow> char" where
  "char_of_byte b = char_of (unat b)"

definition b64_alphabet :: string where
  "b64_alphabet = ''ABCDEFGHIJKLMNOPQRSTUVWXYZabcdefghijklmnopqrstuvwxyz0123456789+/''"

definition table_b2a_base64 :: "sextet \<Rightarrow> byte" where
  "table_b2a_base64 i = byte_of_char (b64_alphabet ! unat i)"

definition BASE64_PAD :: byte where
  "BASE64_PAD = byte_of_char CHR ''=''"

fun b64encode :: "byte list \<Rightarrow> byte list" where
  "b64encode (a # b # c # rest) =
     table_b2a_base64 (ucast (drop_bit 2 a))
     # table_b2a_base64 (ucast (push_bit 4 (a AND 3) OR drop_bit 4 b))
     # table_b2a_base64 (ucast (push_bit 2 (b AND 15) OR drop_bit 6 c))
     # table_b2a_base64 (ucast (c AND 63))
     # b64encode rest"
| "b64encode [a, b] =
     [table_b2a_base64 (ucast (drop_bit 2 a)),
      table_b2a_base64 (ucast (push_bit 4 (a AND 3) OR drop_bit 4 b)),
      table_b2a_base64 (ucast (push_bit 2 (b AND 15))),
      BASE64_PAD]"
| "b64encode [a] =
     [table_b2a_base64 (ucast (drop_bit 2 a)),
      table_b2a_base64 (ucast (push_bit 4 (a AND 3))),
      BASE64_PAD, BASE64_PAD]"
| "b64encode [] = []"

text \<open>
  \<^verbatim>\<open>.decode('utf-8')\<close> turns bytes into a string. A byte below \<open>0x80\<close> is the character
  with that code. A \<open>string\<close> here holds 8-bit characters only, so the multi-byte
  sequences of UTF-8 are outside the model: on a byte from \<open>0x80\<close> on the model answers
  \<open>UnicodeDecodeError\<close>, which is what Python does only when the sequence is malformed.
  The encoder never takes that branch (\<open>b64encode_ascii\<close> below).
\<close>

definition bytes_decode_utf8 :: "byte list \<Rightarrow> py_error + string" where
  "bytes_decode_utf8 bs =
     (if list_all (\<lambda>b. b < 0x80) bs then Inr (map char_of_byte bs)
      else Inl UnicodeDecodeError)"

subsection \<open>The in-memory buffer\<close>

text \<open>
  \<^verbatim>\<open>io.BytesIO\<close>: the bytes written so far and the position of the next write. A write
  replaces the bytes from the position on and extends the buffer where it goes past the
  end (a position beyond the end is first reached by zero bytes); \<^verbatim>\<open>getvalue\<close> returns
  the whole buffer wherever the position is.
\<close>

record bytes_io =
  buf :: "byte list"
  pos :: nat

definition BytesIO :: bytes_io where
  "BytesIO = \<lparr>buf = [], pos = 0\<rparr>"

definition write_bytes :: "bytes_io \<Rightarrow> byte list \<Rightarrow> bytes_io" where
  "write_bytes fp bs =
     (let old = buf fp @ replicate (pos fp - length (buf fp)) 0
      in \<lparr>buf = take (pos fp) old @ bs @ drop (pos fp + length bs) old,
          pos = pos fp + length bs\<rparr>)"

definition seek :: "bytes_io \<Rightarrow> nat \<Rightarrow> bytes_io" where
  "seek fp n = fp\<lparr>pos := n\<rparr>"

definition getvalue :: "bytes_io \<Rightarrow> byte list" where
  "getvalue fp = buf fp"

subsection \<open>Saving as PNG, and the encoder\<close>

text \<open>
  \<^verbatim>\<open>image.save(buffer, format="PNG")\<close> is Pillow's PNG writer, which is not part of the
  notebook. It is the parameter \<open>png_encode\<close>: the bytes of the PNG file for an image, or
  the exception raised (an image mode that PNG cannot hold, for one). \<open>save\<close> writes
  these bytes to the buffer.
  \<^verbatim>\<open>
  def image_to_base64(image: Image.Image):
      buffer = BytesIO()
      image.save(buffer, format="PNG")
      buffer.seek(0)
      image_data = buffer.getvalue()
      image_base64 = base64.b64encode(image_data).decode('utf-8')
      mime_type = "image/png"
      image_uri = f"data:{mime_type};base64,{image_base64}"
      return image_uri
  \<close>
  (\<open>image\<close> is the image of a set under a function in HOL, so the argument is \<open>img\<close>.)
\<close>

definition save :: "('img \<Rightarrow> py_error + byte list) \<Rightarrow> 'img \<Rightarrow> bytes_io \<Rightarrow> py_error + bytes_io" where
  "save png_encode img fp =
     (case png_encode img of Inl e \<Rightarrow> Inl e | Inr bs \<Rightarrow> Inr (write_bytes fp bs))"

definition image_to_base64 :: "('img \<Rightarrow> py_error + byte list) \<Rightarrow> 'img \<Rightarrow> py_error + string" where
  "image_to_base64 png_encode img =
     (let buffer = BytesIO in
      case save png_encode img buffer of
        Inl e \<Rightarrow> Inl e
      | Inr buffer \<Rightarrow>
          let buffer = seek buffer 0;
              image_data = getvalue buffer
          in case bytes_decode_utf8 (b64encode image_data) of
               Inl e \<Rightarrow> Inl e
             | Inr image_base64 \<Rightarrow>
                 let mime_type = ''image/png'';
                     image_uri = ''data:'' @ mime_type @ '';base64,'' @ image_base64
                 in Inr image_uri)"

section \<open>The embedding requests\<close>

text \<open>
  \<^verbatim>\<open>
  image_embedding = client.embeddings.create(
      input=[prompt],
      model="mlx-community/Qwen2.5-VL-3B-Instruct-4bit",
      extra_body = {"image_url": image_uri}
  ).data[0].embedding

  text_embedding = client.embeddings.create(
      input=[text],
      model="mlx-community/Qwen2.5-VL-3B-Instruct-4bit"
  ).data[0].embedding
  \<close>
  The server is outside the notebook: \<^verbatim>\<open>client.embeddings.create\<close> is the parameter
  \<open>create\<close>, from a request to a response or an exception. \<open>data_0_embedding\<close> is the
  expression \<^verbatim>\<open>.data[0].embedding\<close>, which raises \<^verbatim>\<open>IndexError\<close> on an empty result list.
\<close>

record embedding_request =
  input :: "string list"
  model :: string
  extra_body :: "(string \<times> string) list"

record embedding_item =
  embedding :: "real list"
  index :: nat

record create_embedding_response =
  data :: "embedding_item list"

type_synonym embeddings_create = "embedding_request \<Rightarrow> py_error + create_embedding_response"

definition data_0_embedding :: "create_embedding_response \<Rightarrow> py_error + real list" where
  "data_0_embedding response =
     (case data response of [] \<Rightarrow> Inl IndexError | first # _ \<Rightarrow> Inr (embedding first))"

definition image_request :: "string \<Rightarrow> embedding_request" where
  "image_request image_uri =
     \<lparr>input = [''Describe the image in detail''],
      model = ''mlx-community/Qwen2.5-VL-3B-Instruct-4bit'',
      extra_body = [(''image_url'', image_uri)]\<rparr>"

definition text_request :: embedding_request where
  "text_request =
     \<lparr>input = [''A green dog looking at the camera''],
      model = ''mlx-community/Qwen2.5-VL-3B-Instruct-4bit'',
      extra_body = []\<rparr>"

definition image_embedding :: "embeddings_create \<Rightarrow> string \<Rightarrow> py_error + real list" where
  "image_embedding create image_uri =
     (case create (image_request image_uri) of
        Inl e \<Rightarrow> Inl e
      | Inr response \<Rightarrow> data_0_embedding response)"

definition text_embedding :: "embeddings_create \<Rightarrow> py_error + real list" where
  "text_embedding create =
     (case create text_request of
        Inl e \<Rightarrow> Inl e
      | Inr response \<Rightarrow> data_0_embedding response)"

section \<open>Notions of the specification\<close>

text \<open>
  The specification talks about the scorer through the L2 norm of a vector and the
  multiple of a vector by a scalar.
\<close>

definition sum_squares :: "real list \<Rightarrow> real" where
  "sum_squares v = (\<Sum>x\<leftarrow>v. x * x)"

definition l2_norm :: "real list \<Rightarrow> real" where
  "l2_norm v = sqrt (sum_squares v)"

definition scale :: "real \<Rightarrow> real list \<Rightarrow> real list" where
  "scale c v = map (\<lambda>x. c * x) v"

text \<open>
  The same multiple in float64, where each component of the product is rounded; and the
  runs of the accumulator loop in which no product and no running sum needs rounding.
\<close>

definition scale_float64 :: "float64 \<Rightarrow> float64 list \<Rightarrow> float64 list" where
  "scale_float64 c v = map (f64_mul c) v"

fun no_rounding :: "real \<Rightarrow> real list \<Rightarrow> real list \<Rightarrow> bool" where
  "no_rounding tmp (x # xs) (y # ys) \<longleftrightarrow>
     representable (x * y) \<and> representable (tmp + x * y) \<and> no_rounding (tmp + x * y) xs ys"
| "no_rounding tmp _ _ \<longleftrightarrow> True"

text \<open>
  The specification talks about the encoder through the way back: strip the prefix
  \<^verbatim>\<open>data:image/png;base64,\<close>, decode the payload from base64, parse the bytes as PNG.
  The notebook has no such code. The base64 decoder below reads padded RFC 4648 text:
  groups of four alphabet characters, the last one possibly ending in \<^verbatim>\<open>=\<close> or \<^verbatim>\<open>==\<close>;
  anything else is an error. The PNG parser is the parameter \<open>png_parse\<close>.
\<close>

definition table_a2b_base64 :: "char \<Rightarrow> sextet option" where
  "table_a2b_base64 = map_of (zip b64_alphabet (map of_nat [0..<64]))"

fun a2b_base64 :: "string \<Rightarrow> byte list option" where
  "a2b_base64 (c1 # c2 # c3 # c4 # rest) =
     (case (table_a2b_base64 c1, table_a2b_base64 c2) of
        (Some s1, Some s2) \<Rightarrow>
          (let b1 = push_bit 2 (ucast s1) OR drop_bit 4 (ucast s2) in
           if rest = [] \<and> c3 = CHR ''='' \<and> c4 = CHR ''='' then Some [b1]
           else case table_a2b_base64 c3 of
             Some s3 \<Rightarrow>
               (let b2 = push_bit 4 (ucast s2) OR drop_bit 2 (ucast s3) in
                if rest = [] \<and> c4 = CHR ''='' then Some [b1, b2]
                else case table_a2b_base64 c4 of
                  Some s4 \<Rightarrow>
                    (let b3 = push_bit 6 (ucast s3) OR ucast s4 in
                     case a2b_base64 rest of
                       Some bs \<Rightarrow> Some (b1 # b2 # b3 # bs)
                     | None \<Rightarrow> None)
                | None \<Rightarrow> None)
           | None \<Rightarrow> None)
      | _ \<Rightarrow> None)"
| "a2b_base64 [] = Some []"
| "a2b_base64 _ = None"

definition b64decode :: "string \<Rightarrow> py_error + byte list" where
  "b64decode s = (case a2b_base64 s of None \<Rightarrow> Inl Base64Error | Some bs \<Rightarrow> Inr bs)"

definition data_uri_prefix :: string where
  "data_uri_prefix = ''data:image/png;base64,''"

definition strip_prefix :: "string \<Rightarrow> py_error + string" where
  "strip_prefix uri =
     (if take (length data_uri_prefix) uri = data_uri_prefix
      then Inr (drop (length data_uri_prefix) uri) else Inl NotADataURI)"

definition decode_data_uri :: "(byte list \<Rightarrow> py_error + 'img) \<Rightarrow> string \<Rightarrow> py_error + 'img" where
  "decode_data_uri png_parse uri =
     (case strip_prefix uri of
        Inl e \<Rightarrow> Inl e
      | Inr payload \<Rightarrow>
          (case b64decode payload of Inl e \<Rightarrow> Inl e | Inr bs \<Rightarrow> png_parse bs))"

section \<open>Properties of the scorer over exact arithmetic\<close>

lemma dot_loop_sum:
  "length a = length b \<Longrightarrow> dot_loop tmp a b = tmp + (\<Sum>i<length a. a ! i * b ! i)"
proof (induction a b arbitrary: tmp rule: list_induct2)
  case Nil
  show ?case by simp
next
  case (Cons x xs y ys)
  have "(\<Sum>i<Suc (length xs). (x # xs) ! i * (y # ys) ! i)
          = x * y + (\<Sum>i<length xs. xs ! i * ys ! i)"
    unfolding length_Cons sum.lessThan_Suc_shift by simp
  with Cons.IH [of "tmp + x * y"] show ?case by simp
qed

lemma dot_loop_acc:
  "length a = length b \<Longrightarrow> dot_loop tmp a b = tmp + dot_loop 0 a b"
  by (simp add: dot_loop_sum)

lemma dot_loop_commute:
  "length a = length b \<Longrightarrow> dot_loop tmp a b = dot_loop tmp b a"
  by (induction a b arbitrary: tmp rule: list_induct2) (simp_all add: mult.commute)

lemma dot_loop_self: "dot_loop tmp v v = tmp + sum_squares v"
  by (induction v arbitrary: tmp) (simp_all add: sum_squares_def)

lemma dot_loop_scale_left:
  "length a = length b \<Longrightarrow> dot_loop (c * tmp) (scale c a) b = c * dot_loop tmp a b"
proof (induction a b arbitrary: tmp rule: list_induct2)
  case Nil
  show ?case by (simp add: scale_def)
next
  case (Cons x xs y ys)
  have "c * tmp + c * x * y = c * (tmp + x * y)" by (simp add: algebra_simps)
  with Cons.IH [of "tmp + x * y"] show ?case by (simp add: scale_def)
qed

lemma dot_loop_scale_right:
  "length a = length b \<Longrightarrow> dot_loop (c * tmp) a (scale c b) = c * dot_loop tmp a b"
proof (induction a b arbitrary: tmp rule: list_induct2)
  case Nil
  show ?case by (simp add: scale_def)
next
  case (Cons x xs y ys)
  have "c * tmp + x * (c * y) = c * (tmp + x * y)" by (simp add: algebra_simps)
  with Cons.IH [of "tmp + x * y"] show ?case by (simp add: scale_def)
qed

lemma two_dot_le:
  "length a = length b \<Longrightarrow> 2 * dot_loop 0 a b \<le> sum_squares a + sum_squares b"
proof (induction a b rule: list_induct2)
  case Nil
  show ?case by (simp add: sum_squares_def)
next
  case (Cons x xs y ys)
  have "0 \<le> (x - y) * (x - y)" by simp
  then have xy: "2 * (x * y) \<le> x * x + y * y" by (simp add: algebra_simps)
  have "dot_loop 0 (x # xs) (y # ys) = x * y + dot_loop 0 xs ys"
    using dot_loop_acc [OF Cons.hyps, of "x * y"] by simp
  with Cons.IH xy show ?case by (simp add: sum_squares_def)
qed

lemma neg_two_dot_le:
  "length a = length b \<Longrightarrow> - (2 * dot_loop 0 a b) \<le> sum_squares a + sum_squares b"
proof (induction a b rule: list_induct2)
  case Nil
  show ?case by (simp add: sum_squares_def)
next
  case (Cons x xs y ys)
  have "0 \<le> (x + y) * (x + y)" by simp
  then have xy: "- (2 * (x * y)) \<le> x * x + y * y" by (simp add: algebra_simps)
  have "dot_loop 0 (x # xs) (y # ys) = x * y + dot_loop 0 xs ys"
    using dot_loop_acc [OF Cons.hyps, of "x * y"] by simp
  with Cons.IH xy show ?case by (simp add: sum_squares_def)
qed

lemma l2_norm_unit: "l2_norm v = 1 \<longleftrightarrow> sum_squares v = 1"
  by (simp add: l2_norm_def)

text \<open>
  C1, over exact arithmetic: on two vectors of the same length \<open>n\<close> the scorer returns
  the dot product, the sum of \<open>a[i] * b[i]\<close> over the indices \<open>i\<close> from \<open>0\<close> to
  \<open>n - 1\<close>. In float64 the products and the running sums are rounded, and
  the value returned can differ from this sum.
\<close>

theorem score_is_dot_product:
  assumes "length a = length b"
  shows "cosine_similarity a b = Inr (\<Sum>i<length a. a ! i * b ! i)"
  using assms by (simp add: cosine_similarity_def np_array_def np_dot_def shape_def dot_loop_sum)

theorem score_is_dot_product_witness:
  "length [1, 2, 3 :: real] = length [4, 5, 6 :: real]
   \<and> cosine_similarity [1, 2, 3] [4, 5, 6] = Inr 32"
  using score_is_dot_product [of "[1, 2, 3]" "[4, 5, 6]"]
  by (simp add: lessThan_Suc numeral_3_eq_3)

text \<open>
  C2: on two vectors of different lengths the scorer raises instead of returning a value;
  the exception is the \<^verbatim>\<open>ValueError\<close> of \<^verbatim>\<open>np.dot\<close> for shapes that are not aligned.
\<close>

theorem score_length_mismatch:
  assumes "length a \<noteq> length b"
  shows "cosine_similarity a b = Inl (ValueError_shapes_not_aligned (length a) (length b))"
  using assms by (simp add: cosine_similarity_def np_array_def np_dot_def shape_def)

theorem score_length_mismatch_witness:
  "length [1, 2 :: real] \<noteq> length [3 :: real]
   \<and> cosine_similarity [1, 2] [3] = Inl (ValueError_shapes_not_aligned 2 1)"
  using score_length_mismatch [of "[1, 2]" "[3]"] by simp

text \<open>
  C5: a vector of L2 norm 1 has score 1 with itself, in exact arithmetic.
\<close>

theorem score_unit_self:
  assumes "l2_norm v = 1"
  shows "cosine_similarity v v = Inr 1"
  using assms
  by (simp add: cosine_similarity_def np_array_def np_dot_def dot_loop_self l2_norm_unit)

theorem score_unit_self_witness:
  "l2_norm [3 / 5, 4 / 5] = 1 \<and> cosine_similarity [3 / 5, 4 / 5] [3 / 5, 4 / 5] = Inr 1"
proof -
  have h: "l2_norm [3 / 5, 4 / 5] = 1"
    by (simp add: l2_norm_def sum_squares_def)
  from h score_unit_self [OF h] show ?thesis by simp
qed

text \<open>
  C6: the scorer is symmetric: on vectors of the same length, exchanging the arguments does
  not change the score.
\<close>

theorem score_symmetric:
  assumes "length a = length b"
  shows "cosine_similarity a b = cosine_similarity b a"
  using assms dot_loop_commute [OF assms, of 0]
  by (simp add: cosine_similarity_def np_array_def np_dot_def shape_def)

theorem score_symmetric_witness:
  "length [1, 2 :: real] = length [3, 4 :: real]
   \<and> cosine_similarity [1, 2] [3, 4] = cosine_similarity [3, 4] [1, 2]
   \<and> cosine_similarity [1, 2] [3, 4] = Inr 11"
  using score_symmetric [of "[1, 2]" "[3, 4]"]
  by (simp add: cosine_similarity_def np_array_def np_dot_def shape_def)

text \<open>
  C7, over exact arithmetic: on two vectors of the same length that both have L2 norm 1,
  the scorer returns a value between \<open>-1\<close> and \<open>1\<close>. In float64 the value can leave
  the range by rounding.
\<close>

theorem score_unit_range:
  assumes "length a = length b" and "l2_norm a = 1" and "l2_norm b = 1"
  shows "\<exists>s. cosine_similarity a b = Inr s \<and> - 1 \<le> s \<and> s \<le> 1"
proof -
  have sa: "sum_squares a = 1" and sb: "sum_squares b = 1"
    using assms(2,3) by (simp_all add: l2_norm_unit)
  have "2 * dot_loop 0 a b \<le> 2" and "- (2 * dot_loop 0 a b) \<le> 2"
    using two_dot_le [OF assms(1)] neg_two_dot_le [OF assms(1)] sa sb by simp_all
  then have "- 1 \<le> dot_loop 0 a b \<and> dot_loop 0 a b \<le> 1" by simp
  moreover have "cosine_similarity a b = Inr (dot_loop 0 a b)"
    using assms(1) by (simp add: cosine_similarity_def np_array_def np_dot_def shape_def)
  ultimately show ?thesis by simp
qed

theorem score_unit_range_witness:
  "length [3 / 5, 4 / 5 :: real] = length [4 / 5, 3 / 5 :: real]
   \<and> l2_norm [3 / 5, 4 / 5] = 1 \<and> l2_norm [4 / 5, 3 / 5] = 1
   \<and> (\<exists>s. cosine_similarity [3 / 5, 4 / 5] [4 / 5, 3 / 5] = Inr s \<and> - 1 \<le> s \<and> s \<le> 1)"
proof -
  have l: "length [3 / 5, 4 / 5 :: real] = length [4 / 5, 3 / 5 :: real]" by simp
  have a: "l2_norm [3 / 5, 4 / 5] = 1" by (simp add: l2_norm_def sum_squares_def)
  have b: "l2_norm [4 / 5, 3 / 5] = 1" by (simp add: l2_norm_def sum_squares_def)
  from l a b score_unit_range [OF l a b] show ?thesis by blast
qed

text \<open>
  C9: on two empty vectors the scorer returns 0, the empty sum, and raises nothing.
\<close>

theorem score_empty: "cosine_similarity [] [] = Inr 0"
  by (simp add: cosine_similarity_def np_array_def np_dot_def shape_def)

text \<open>
  C10, over exact arithmetic: the scorer is homogeneous in each argument: on vectors of the
  same length, multiplying either vector by a scalar \<open>c\<close> multiplies the score by \<open>c\<close>.
  Nothing is normalised. In float64 the two sides can differ by rounding.
\<close>

theorem score_homogeneous:
  assumes "length a = length b"
  shows "\<exists>s. cosine_similarity a b = Inr s
           \<and> cosine_similarity (scale c a) b = Inr (c * s)
           \<and> cosine_similarity a (scale c b) = Inr (c * s)"
proof -
  have "dot_loop 0 (scale c a) b = c * dot_loop 0 a b"
    using dot_loop_scale_left [OF assms, of c 0] by simp
  moreover have "dot_loop 0 a (scale c b) = c * dot_loop 0 a b"
    using dot_loop_scale_right [OF assms, of c 0] by simp
  moreover have "length (scale c a) = length a" and "length (scale c b) = length b"
    by (simp_all add: scale_def)
  ultimately show ?thesis
    using assms by (simp add: cosine_similarity_def np_array_def np_dot_def shape_def)
qed

theorem score_homogeneous_witness:
  "length [1, 2 :: real] = length [3, 4 :: real]
   \<and> (\<exists>s. cosine_similarity [1, 2] [3, 4] = Inr s
        \<and> cosine_similarity (scale 5 [1, 2]) [3, 4] = Inr (5 * s)
        \<and> cosine_similarity [1, 2] (scale 5 [3, 4]) = Inr (5 * s))
   \<and> cosine_similarity (scale 5 [1, 2]) [3, 4] = Inr 55"
proof -
  have l: "length [1, 2 :: real] = length [3, 4 :: real]" by simp
  have v: "cosine_similarity (scale 5 [1, 2]) [3, 4] = Inr 55"
    by (simp add: cosine_similarity_def np_array_def np_dot_def shape_def scale_def)
  from l v score_homogeneous [OF l, of 5] show ?thesis by blast
qed

section \<open>Properties of the scorer in float64\<close>

text \<open>
  \<open>exponent\<close> is the binary exponent of its argument, and \<open>- 1022\<close> in the subnormal
  range.
\<close>

lemma bitlen_eqI:
  assumes "2 ^ k \<le> n" and "n < 2 ^ Suc k"
  shows "bitlen n = int k + 1"
proof -
  have "bitlen n \<le> int (Suc k)"
    unfolding bitlen_le_iff_power nat_int using assms(2) by simp
  moreover have "int (Suc k) \<le> bitlen n"
    unfolding bitlen_ge_iff_power nat_int using assms(1) by simp
  ultimately show ?thesis by simp
qed

lemma exponent_normal:
  assumes lo: "2 powi e \<le> \<bar>x\<bar>" and hi: "\<bar>x\<bar> < 2 powi (e + 1)" and e: "- 1022 \<le> e"
  shows "exponent x = e"
proof -
  define k where "k = nat (e + 1074)"
  have k: "e + 1074 = int k" using e by (simp add: k_def)
  have "(2::real) powi (e + 1074) = 2 powi e * 2 powi 1074"
    by (rule power_int_add) simp
  then have pk: "(2::real) ^ k = 2 powi e * 2 ^ 1074"
    unfolding k by simp
  have "(2::real) powi (e + 1 + 1074) = 2 powi (e + 1) * 2 powi 1074"
    by (rule power_int_add) simp
  moreover have "e + 1 + 1074 = int (Suc k)" using k by simp
  ultimately have pk1: "(2::real) ^ Suc k = 2 powi (e + 1) * 2 ^ 1074"
    by (simp only: power_int_of_nat power_int_numeral)
  let ?n = "\<lfloor>\<bar>x\<bar> * 2 ^ 1074\<rfloor>"
  have "(2::real) ^ k \<le> \<bar>x\<bar> * 2 ^ 1074"
    unfolding pk using lo by (simp add: mult_right_mono)
  then have "of_int (2 ^ k) \<le> \<bar>x\<bar> * 2 ^ 1074" by simp
  then have n_lo: "2 ^ k \<le> ?n" by (simp only: le_floor_iff)
  have "\<bar>x\<bar> * 2 ^ 1074 < (2::real) ^ Suc k"
    unfolding pk1 using hi by (simp add: mult_strict_right_mono)
  then have "\<bar>x\<bar> * 2 ^ 1074 < of_int (2 ^ Suc k)" by simp
  then have n_hi: "?n < 2 ^ Suc k" by (simp only: floor_less_iff)
  have "bitlen ?n = int k + 1" by (rule bitlen_eqI [OF n_lo n_hi])
  then show ?thesis using k e by (simp add: exponent_def)
qed

lemma exponent_subnormal:
  assumes "\<bar>x\<bar> < 2 powi (- 1022)"
  shows "exponent x = - 1022"
proof -
  let ?n = "\<lfloor>\<bar>x\<bar> * 2 ^ 1074\<rfloor>"
  have "(2::real) powi (- 1022 + 1074) = 2 powi (- 1022) * 2 powi 1074"
    by (rule power_int_add) simp
  then have p: "(2::real) ^ 52 = 2 powi (- 1022) * 2 ^ 1074" by simp
  have "\<bar>x\<bar> * 2 ^ 1074 < (2::real) ^ 52"
    unfolding p using assms by (simp add: mult_strict_right_mono)
  then have "\<bar>x\<bar> * 2 ^ 1074 < of_int (2 ^ 52)" by simp
  then have "?n < 2 ^ nat 52" by (simp only: floor_less_iff nat_numeral)
  then have "bitlen ?n \<le> 52" by (simp only: bitlen_le_iff_power) simp
  then show ?thesis by (simp add: exponent_def)
qed


lemma round_f64_normal_eq:
  assumes "2 powi e \<le> \<bar>x\<bar>" and "\<bar>x\<bar> < 2 powi (e + 1)" and "- 1022 \<le> e"
  shows "round_f64 x =
     (let q = 2 powi (e - 52); r = of_int (rne (x / q)) * q
      in if 2 ^ 1024 \<le> r then PosInf else if r \<le> - (2 ^ 1024) then NegInf else Finite r)"
  by (simp add: round_f64_def quantum_def exponent_normal [OF assms])

lemma representable_normal_eq:
  assumes "2 powi e \<le> \<bar>x\<bar>" and "\<bar>x\<bar> < 2 powi (e + 1)" and "- 1022 \<le> e"
  shows "representable x \<longleftrightarrow>
     \<bar>x\<bar> < 2 ^ 1024 \<and> of_int \<lfloor>x / 2 powi (e - 52)\<rfloor> = x / 2 powi (e - 52)"
  by (simp add: representable_def quantum_def exponent_normal [OF assms])

lemma round_f64_zero: "round_f64 0 = Finite 0"
  by (simp add: round_f64_def rne_def)

lemma rne_of_int: "rne (of_int n) = n"
  by (simp add: rne_def)

lemma quantum_pos: "0 < quantum x"
  by (simp add: quantum_def)

lemma round_f64_representable:
  assumes "representable x"
  shows "round_f64 x = Finite x"
proof -
  from assms obtain n :: int where n: "x / quantum x = of_int n"
    unfolding representable_def by metis
  have q: "quantum x \<noteq> 0" using quantum_pos [of x] by simp
  from n q have x: "of_int n * quantum x = x" by (simp add: field_simps)
  from assms have b: "\<bar>x\<bar> < 2 ^ 1024" by (simp add: representable_def)
  then have "\<not> 2 ^ 1024 \<le> x" and "\<not> x \<le> - (2 ^ 1024)" by linarith+
  then show ?thesis
    by (simp add: round_f64_def Let_def n rne_of_int x)
qed

lemma f64_mul_commute: "f64_mul a b = f64_mul b a"
  by (cases a; cases b) (simp_all add: mult.commute)

text \<open>
  What does not depend on rounding holds in float64 as over exact arithmetic: the shape
  check, the empty sum, and the symmetry of the score.
\<close>

lemma f64_add_commute: "f64_add a b = f64_add b a"
  by (cases a; cases b) (simp_all add: add.commute)

lemma dot_loop_float64_commute:
  "length a = length b \<Longrightarrow> dot_loop_float64 tmp a b = dot_loop_float64 tmp b a"
  by (induction a b arbitrary: tmp rule: list_induct2) (simp_all add: f64_mul_commute)

lemma score_float64_symmetric:
  "length a = length b \<Longrightarrow> cosine_similarity_float64 a b = cosine_similarity_float64 b a"
  by (simp add: cosine_similarity_float64_def np_array_float64_def np_dot_float64_def dot_loop_float64_commute)

lemma score_float64_length_mismatch:
  "length a \<noteq> length b \<Longrightarrow>
   cosine_similarity_float64 a b = Inl (ValueError_shapes_not_aligned (length a) (length b))"
  by (simp add: cosine_similarity_float64_def np_array_float64_def np_dot_float64_def)

lemma score_float64_empty: "cosine_similarity_float64 [] [] = Inr (Finite 0)"
  by (simp add: cosine_similarity_float64_def np_array_float64_def np_dot_float64_def)

text \<open>
  Where nothing is rounded, the float64 scorer returns what the exact one returns.
\<close>

lemma dot_loop_float64_exact:
  "no_rounding tmp a b \<Longrightarrow>
   dot_loop_float64 (Finite tmp) (map Finite a) (map Finite b) = Finite (dot_loop tmp a b)"
proof (induction tmp a b rule: dot_loop.induct)
  case (1 tmp x xs y ys)
  then show ?case by (simp add: round_f64_representable)
qed simp_all

lemma score_float64_exact:
  assumes "length a = length b" and "no_rounding 0 a b"
  shows "cosine_similarity_float64 (map Finite a) (map Finite b) = map_sum id Finite (cosine_similarity a b)"
  using assms
  by (simp add: cosine_similarity_float64_def np_array_float64_def np_dot_float64_def
        cosine_similarity_def np_array_def np_dot_def shape_def dot_loop_float64_exact)

text \<open>
  C1 as stated fails in float64. \<open>10^16\<close> and \<open>1\<close> are doubles, the products of
  \<open>[10^16, 1]\<close> and \<open>[1, 1]\<close> are exact, and their sum \<open>10^16 + 1\<close> is not a double: it
  lies half-way between \<open>10^16\<close> and \<open>10^16 + 2\<close> and is rounded to \<open>10^16\<close>.
\<close>

theorem score_is_dot_product_counterexample:
  "representable (10 ^ 16) \<and> representable 1
   \<and> length [Finite (10 ^ 16), Finite 1] = length [Finite 1, Finite 1]
   \<and> cosine_similarity_float64 [Finite (10 ^ 16), Finite 1] [Finite 1, Finite 1]
       = Inr (Finite (10 ^ 16))
   \<and> cosine_similarity_float64 [Finite (10 ^ 16), Finite 1] [Finite 1, Finite 1]
       \<noteq> Inr (Finite (10 ^ 16 * 1 + 1 * 1))"
proof -
  have d0: "representable 10000000000000000"
    by (subst representable_normal_eq [where e = 53]) simp_all
  have d1: "representable 1"
    by (subst representable_normal_eq [where e = 0]) simp_all
  have p0: "round_f64 (10000000000000000) = Finite (10000000000000000)"
    by (subst round_f64_normal_eq [where e = 53]) (simp_all add: rne_def Let_def)
  have p1: "round_f64 (1) = Finite (1)"
    by (subst round_f64_normal_eq [where e = 0]) (simp_all add: rne_def Let_def)
  have s1: "round_f64 (10000000000000001) = Finite (10000000000000000)"
    by (subst round_f64_normal_eq [where e = 53]) (simp_all add: rne_def Let_def)
  show ?thesis
    by (simp add: cosine_similarity_float64_def np_array_float64_def np_dot_float64_def d0 d1 p0 p1 s1)
qed

text \<open>
  C7 as stated fails in float64. The nine components below are doubles (multiples of
  \<open>2^(-29)\<close>), and their squares add up to 1 exactly, so the vector has L2 norm 1. Its
  score with itself, each square and each running sum rounded, is \<open>1 + 2^(-52)\<close>, the
  double next above 1.
\<close>

theorem score_unit_range_counterexample:
  "list_all representable
     [382638889 / 536870912, 30531409 / 536870912, 67386053 / 536870912, 85009973 / 536870912, 92227575 / 536870912, 73531525 / 536870912, 124423035 / 536870912, 18308555 / 33554432, 117949973 / 536870912]
   \<and> l2_norm
        [382638889 / 536870912, 30531409 / 536870912, 67386053 / 536870912, 85009973 / 536870912, 92227575 / 536870912, 73531525 / 536870912, 124423035 / 536870912, 18308555 / 33554432, 117949973 / 536870912] = 1
   \<and> cosine_similarity_float64
        (map Finite
          [382638889 / 536870912, 30531409 / 536870912, 67386053 / 536870912, 85009973 / 536870912, 92227575 / 536870912, 73531525 / 536870912, 124423035 / 536870912, 18308555 / 33554432, 117949973 / 536870912])
        (map Finite
          [382638889 / 536870912, 30531409 / 536870912, 67386053 / 536870912, 85009973 / 536870912, 92227575 / 536870912, 73531525 / 536870912, 124423035 / 536870912, 18308555 / 33554432, 117949973 / 536870912])
       = Inr (Finite (4503599627370497 / 4503599627370496))
   \<and> \<not> (4503599627370497 / 4503599627370496 \<le> (1::real))"
proof -
  have d0: "representable (382638889 / 536870912)"
    by (subst representable_normal_eq [where e = "-1"]) simp_all
  have d1: "representable (30531409 / 536870912)"
    by (subst representable_normal_eq [where e = "-5"]) simp_all
  have d2: "representable (67386053 / 536870912)"
    by (subst representable_normal_eq [where e = "-3"]) simp_all
  have d3: "representable (85009973 / 536870912)"
    by (subst representable_normal_eq [where e = "-3"]) simp_all
  have d4: "representable (92227575 / 536870912)"
    by (subst representable_normal_eq [where e = "-3"]) simp_all
  have d5: "representable (73531525 / 536870912)"
    by (subst representable_normal_eq [where e = "-3"]) simp_all
  have d6: "representable (124423035 / 536870912)"
    by (subst representable_normal_eq [where e = "-3"]) simp_all
  have d7: "representable (18308555 / 33554432)"
    by (subst representable_normal_eq [where e = "-1"]) simp_all
  have d8: "representable (117949973 / 536870912)"
    by (subst representable_normal_eq [where e = "-3"]) simp_all
  have p0: "round_f64 (146412519375154321 / 288230376151711744) = Finite (4575391230473573 / 9007199254740992)"
    by (subst round_f64_normal_eq [where e = "-1"]) (simp_all add: rne_def Let_def)
  have s0: "round_f64 (4575391230473573 / 9007199254740992) = Finite (4575391230473573 / 9007199254740992)"
    by (subst round_f64_normal_eq [where e = "-1"]) (simp_all add: rne_def Let_def)
  have p1: "round_f64 (932166935525281 / 288230376151711744) = Finite (932166935525281 / 288230376151711744)"
    by (subst round_f64_normal_eq [where e = "-9"]) (simp_all add: rne_def Let_def)
  have s1: "round_f64 (147344686310679617 / 288230376151711744) = Finite (2302260723604369 / 4503599627370496)"
    by (subst round_f64_normal_eq [where e = "-1"]) (simp_all add: rne_def Let_def)
  have p2: "round_f64 (4540880138918809 / 288230376151711744) = Finite (4540880138918809 / 288230376151711744)"
    by (subst round_f64_normal_eq [where e = "-6"]) (simp_all add: rne_def Let_def)
  have s2: "round_f64 (151885566449598425 / 288230376151711744) = Finite (4746423951549951 / 9007199254740992)"
    by (subst round_f64_normal_eq [where e = "-1"]) (simp_all add: rne_def Let_def)
  have p3: "round_f64 (7226695509460729 / 288230376151711744) = Finite (7226695509460729 / 288230376151711744)"
    by (subst round_f64_normal_eq [where e = "-6"]) (simp_all add: rne_def Let_def)
  have s3: "round_f64 (159112261959059161 / 288230376151711744) = Finite (4972258186220599 / 9007199254740992)"
    by (subst round_f64_normal_eq [where e = "-1"]) (simp_all add: rne_def Let_def)
  have p4: "round_f64 (8505925590380625 / 288230376151711744) = Finite (8505925590380625 / 288230376151711744)"
    by (subst round_f64_normal_eq [where e = "-6"]) (simp_all add: rne_def Let_def)
  have s4: "round_f64 (167618187549439793 / 288230376151711744) = Finite (2619034180459997 / 4503599627370496)"
    by (subst round_f64_normal_eq [where e = "-1"]) (simp_all add: rne_def Let_def)
  have p5: "round_f64 (5406885168825625 / 288230376151711744) = Finite (5406885168825625 / 288230376151711744)"
    by (subst round_f64_normal_eq [where e = "-6"]) (simp_all add: rne_def Let_def)
  have s5: "round_f64 (173025072718265433 / 288230376151711744) = Finite (5407033522445795 / 9007199254740992)"
    by (subst round_f64_normal_eq [where e = "-1"]) (simp_all add: rne_def Let_def)
  have p6: "round_f64 (15481091638611225 / 288230376151711744) = Finite (1935136454826403 / 36028797018963968)"
    by (subst round_f64_normal_eq [where e = "-5"]) (simp_all add: rne_def Let_def)
  have s6: "round_f64 (23563270544609583 / 36028797018963968) = Finite (1472704409038099 / 2251799813685248)"
    by (subst round_f64_normal_eq [where e = "-1"]) (simp_all add: rne_def Let_def)
  have p7: "round_f64 (335203186188025 / 1125899906842624) = Finite (335203186188025 / 1125899906842624)"
    by (subst round_f64_normal_eq [where e = "-2"]) (simp_all add: rne_def Let_def)
  have s7: "round_f64 (2143110781414149 / 2251799813685248) = Finite (2143110781414149 / 2251799813685248)"
    by (subst round_f64_normal_eq [where e = "-1"]) (simp_all add: rne_def Let_def)
  have p8: "round_f64 (13912196130700729 / 288230376151711744) = Finite (1739024516337591 / 36028797018963968)"
    by (subst round_f64_normal_eq [where e = "-5"]) (simp_all add: rne_def Let_def)
  have s8: "round_f64 (36028797018963975 / 36028797018963968) = Finite (4503599627370497 / 4503599627370496)"
    by (subst round_f64_normal_eq [where e = 0]) (simp_all add: rne_def Let_def)
  have n: "l2_norm
        [382638889 / 536870912, 30531409 / 536870912, 67386053 / 536870912, 85009973 / 536870912, 92227575 / 536870912, 73531525 / 536870912, 124423035 / 536870912, 18308555 / 33554432, 117949973 / 536870912] = 1"
    by (simp add: l2_norm_def sum_squares_def)
  show ?thesis
    by (simp add: n cosine_similarity_float64_def np_array_float64_def np_dot_float64_def
          d0 d1 d2 d3 d4 d5 d6 d7 d8
          p0 s0 p1 s1 p2 s2 p3 s3 p4 s4 p5 s5 p6 s6 p7 s7 p8 s8)
qed

text \<open>
  C10 as stated fails in float64, at \<open>c = 3\<close> and the same two vectors. The score is
  \<open>10^16\<close> and three times the score is \<open>3 * 10^16\<close>, exactly. Three times the first
  vector is \<open>[3 * 10^16, 3]\<close>, exactly, and its score is \<open>3 * 10^16 + 3\<close> rounded, which
  is \<open>3 * 10^16 + 4\<close>.
\<close>

theorem score_homogeneous_counterexample:
  "representable 3 \<and> representable (10 ^ 16) \<and> representable 1
   \<and> length [Finite (10 ^ 16), Finite 1] = length [Finite 1, Finite 1]
   \<and> cosine_similarity_float64 [Finite (10 ^ 16), Finite 1] [Finite 1, Finite 1]
       = Inr (Finite (10 ^ 16))
   \<and> f64_mul (Finite 3) (Finite (10 ^ 16)) = Finite (3 * 10 ^ 16)
   \<and> cosine_similarity_float64 (scale_float64 (Finite 3) [Finite (10 ^ 16), Finite 1])
         [Finite 1, Finite 1]
       = Inr (Finite (3 * 10 ^ 16 + 4))
   \<and> cosine_similarity_float64 (scale_float64 (Finite 3) [Finite (10 ^ 16), Finite 1])
         [Finite 1, Finite 1]
       \<noteq> Inr (f64_mul (Finite 3) (Finite (10 ^ 16)))"
proof -
  have d0: "representable 10000000000000000"
    by (subst representable_normal_eq [where e = 53]) simp_all
  have d1: "representable 1"
    by (subst representable_normal_eq [where e = 0]) simp_all
  have d3: "representable 3"
    by (subst representable_normal_eq [where e = 1]) simp_all
  have p0: "round_f64 (10000000000000000) = Finite (10000000000000000)"
    by (subst round_f64_normal_eq [where e = 53]) (simp_all add: rne_def Let_def)
  have p1: "round_f64 (1) = Finite (1)"
    by (subst round_f64_normal_eq [where e = 0]) (simp_all add: rne_def Let_def)
  have s1: "round_f64 (10000000000000001) = Finite (10000000000000000)"
    by (subst round_f64_normal_eq [where e = 53]) (simp_all add: rne_def Let_def)
  have q0: "round_f64 (30000000000000000) = Finite (30000000000000000)"
    by (subst round_f64_normal_eq [where e = 54]) (simp_all add: rne_def Let_def)
  have q1: "round_f64 (3) = Finite (3)"
    by (subst round_f64_normal_eq [where e = 1]) (simp_all add: rne_def Let_def)
  have t1: "round_f64 (30000000000000003) = Finite (30000000000000004)"
    by (subst round_f64_normal_eq [where e = 54]) (simp_all add: rne_def Let_def)
  show ?thesis
    by (simp add: cosine_similarity_float64_def np_array_float64_def np_dot_float64_def scale_float64_def
          d0 d1 d3 p0 p1 s1 q0 q1 t1)
qed

section \<open>Properties of the encoder\<close>

lemma char_of_byte_of_char: "char_of_byte (byte_of_char c) = c"
proof -
  have "unat (of_nat (of_char c) :: byte) = of_char c mod 256"
    by (simp add: unat_of_nat)
  then show ?thesis
    by (simp add: char_of_byte_def byte_of_char_def)
qed

lemma distinct_alphabet: "distinct b64_alphabet"
  by (simp add: b64_alphabet_def)

lemma length_alphabet: "length b64_alphabet = 64"
  by (simp add: b64_alphabet_def)

lemma unat_sextet: "unat (i :: sextet) < 64"
  using unsigned_less [of i, where ?'a = nat] by simp

lemma alphabet_ascii: "list_all (\<lambda>c. byte_of_char c < 0x80) b64_alphabet"
  by (simp add: b64_alphabet_def byte_of_char_def)

lemma table_b2a_ascii: "table_b2a_base64 i < 0x80"
proof -
  have "b64_alphabet ! unat i \<in> set b64_alphabet"
    by (rule nth_mem) (simp add: length_alphabet unat_sextet)
  with alphabet_ascii show ?thesis
    by (simp add: table_b2a_base64_def list_all_iff)
qed

lemma pad_ascii: "BASE64_PAD < 0x80"
  by (simp add: BASE64_PAD_def byte_of_char_def)

lemma b64encode_ascii: "list_all (\<lambda>b. b < 0x80) (b64encode bs)"
  by (induction bs rule: b64encode.induct) (simp_all add: table_b2a_ascii pad_ascii)

lemma length_b64encode: "length (b64encode bs) = 4 * ((length bs + 2) div 3)"
proof (induction bs rule: b64encode.induct)
  case (1 a b c rest)
  have "(length (a # b # c # rest) + 2) div 3 = Suc ((length rest + 2) div 3)"
    by simp
  with 1 show ?case by simp
qed simp_all

lemma a2b_b2a: "table_a2b_base64 (char_of_byte (table_b2a_base64 i)) = Some i"
proof -
  have "map_of (zip b64_alphabet (map of_nat [0..<64])) (b64_alphabet ! unat i)
          = Some ((map of_nat [0..<64] :: sextet list) ! unat i)"
    by (rule map_of_zip_nth) (simp_all add: length_alphabet distinct_alphabet unat_sextet)
  also have "(map of_nat [0..<64] :: sextet list) ! unat i = i"
    using unat_sextet [of i] by simp
  finally show ?thesis
    by (simp add: table_a2b_base64_def table_b2a_base64_def char_of_byte_of_char)
qed

lemma b2a_not_pad: "char_of_byte (table_b2a_base64 i) \<noteq> CHR ''=''"
proof -
  have "b64_alphabet ! unat i \<in> set b64_alphabet"
    by (rule nth_mem) (simp add: length_alphabet unat_sextet)
  moreover have "CHR ''='' \<notin> set b64_alphabet"
    by (simp add: b64_alphabet_def)
  ultimately show ?thesis
    by (auto simp add: table_b2a_base64_def char_of_byte_of_char)
qed

lemma pad_char: "char_of_byte BASE64_PAD = CHR ''=''"
  by (simp add: BASE64_PAD_def char_of_byte_of_char)

lemma m3: "(3 :: byte) = mask 2" by (simp add: mask_eq_exp_minus_1)
lemma m15: "(15 :: byte) = mask 4" by (simp add: mask_eq_exp_minus_1)
lemma m63: "(63 :: byte) = mask 6" by (simp add: mask_eq_exp_minus_1)

lemma lt8: "n < (8::nat) \<Longrightarrow> n \<in> {0, 1, 2, 3, 4, 5, 6, 7}"
  by auto

lemma join1:
  fixes a b :: byte
  shows "push_bit 2 (ucast (ucast (drop_bit 2 a) :: sextet))
         OR drop_bit 4 (ucast (ucast (push_bit 4 (a AND 3) OR drop_bit 4 b) :: sextet)) = a"
proof (rule bit_word_eqI)
  fix n assume "n < LENGTH(8)"
  then have "n < 8" by simp
  from lt8 [OF this]
  show "bit (push_bit 2 (ucast (ucast (drop_bit 2 a) :: sextet))
         OR drop_bit 4 (ucast (ucast (push_bit 4 (a AND 3) OR drop_bit 4 b) :: sextet)) :: byte) n = bit a n"
    by (auto simp add: bit_simps m3 numeral_2_eq_2 [symmetric] numeral_3_eq_3 [symmetric] dest: bit_imp_le_length)
qed

lemma join1_last:
  fixes a :: byte
  shows "push_bit 2 (ucast (ucast (drop_bit 2 a) :: sextet))
         OR drop_bit 4 (ucast (ucast (push_bit 4 (a AND 3)) :: sextet)) = a"
  using join1 [of a 0] by (simp del: push_bit_and)

lemma join2:
  fixes a b c :: byte
  shows "push_bit 4 (ucast (ucast (push_bit 4 (a AND 3) OR drop_bit 4 b) :: sextet))
         OR drop_bit 2 (ucast (ucast (push_bit 2 (b AND 15) OR drop_bit 6 c) :: sextet)) = b"
proof (rule bit_word_eqI)
  fix n assume "n < LENGTH(8)"
  then have "n < 8" by simp
  from lt8 [OF this]
  show "bit (push_bit 4 (ucast (ucast (push_bit 4 (a AND 3) OR drop_bit 4 b) :: sextet))
         OR drop_bit 2 (ucast (ucast (push_bit 2 (b AND 15) OR drop_bit 6 c) :: sextet)) :: byte) n = bit b n"
    by (auto simp add: bit_simps m3 m15 dest: bit_imp_le_length)
qed

lemma join2_last:
  fixes a b :: byte
  shows "push_bit 4 (ucast (ucast (push_bit 4 (a AND 3) OR drop_bit 4 b) :: sextet))
         OR drop_bit 2 (ucast (ucast (push_bit 2 (b AND 15)) :: sextet)) = b"
  using join2 [of a b 0] by (simp del: push_bit_and)

lemma join3:
  fixes b c :: byte
  shows "push_bit 6 (ucast (ucast (push_bit 2 (b AND 15) OR drop_bit 6 c) :: sextet))
         OR ucast (ucast (c AND 63) :: sextet) = c"
proof (rule bit_word_eqI)
  fix n assume "n < LENGTH(8)"
  then have "n < 8" by simp
  from lt8 [OF this]
  show "bit (push_bit 6 (ucast (ucast (push_bit 2 (b AND 15) OR drop_bit 6 c) :: sextet))
         OR ucast (ucast (c AND 63) :: sextet) :: byte) n = bit c n"
    by (auto simp add: bit_simps m63 m15 dest: bit_imp_le_length)
qed

lemma a2b_b64encode: "a2b_base64 (map char_of_byte (b64encode bs)) = Some bs"
proof (induction bs rule: b64encode.induct)
  case (1 a b c rest)
  then show ?case
    by (simp add: a2b_b2a b2a_not_pad join1 join2 join3 del: push_bit_and)
next
  case (2 a b)
  show ?case
    by (simp add: a2b_b2a b2a_not_pad pad_char join1 join2_last del: push_bit_and)
next
  case (3 a)
  show ?case
    by (simp add: a2b_b2a b2a_not_pad pad_char join1_last del: push_bit_and)
next
  case 4
  show ?case by simp
qed

lemma write_fresh: "write_bytes BytesIO bs = \<lparr>buf = bs, pos = length bs\<rparr>"
  by (simp add: write_bytes_def BytesIO_def)

lemma getvalue_after_save:
  "png_encode img = Inr bs \<Longrightarrow>
   save png_encode img BytesIO = Inr \<lparr>buf = bs, pos = length bs\<rparr>"
  by (simp add: save_def write_fresh)

lemma decode_b64encode:
  "bytes_decode_utf8 (b64encode bs) = Inr (map char_of_byte (b64encode bs))"
  by (simp add: bytes_decode_utf8_def b64encode_ascii)

lemma image_to_base64_value:
  assumes "png_encode img = Inr bs"
  shows "image_to_base64 png_encode img
           = Inr (''data:image/png;base64,'' @ map char_of_byte (b64encode bs))"
  using getvalue_after_save [of png_encode img bs] assms
  by (simp add: image_to_base64_def seek_def getvalue_def decode_b64encode)

lemma image_to_base64_error:
  assumes "png_encode img = Inl e"
  shows "image_to_base64 png_encode img = Inl e"
  using assms by (simp add: image_to_base64_def save_def)

lemma strip_prefix_append: "strip_prefix (data_uri_prefix @ payload) = Inr payload"
  by (simp add: strip_prefix_def)

lemma decode_data_uri_encode:
  "decode_data_uri png_parse (''data:image/png;base64,'' @ map char_of_byte (b64encode bs))
     = png_parse bs"
proof -
  have "strip_prefix (''data:image/png;base64,'' @ map char_of_byte (b64encode bs))
          = Inr (map char_of_byte (b64encode bs))"
    using strip_prefix_append [of "map char_of_byte (b64encode bs)"]
    by (simp add: data_uri_prefix_def)
  then show ?thesis
    by (simp add: decode_data_uri_def b64decode_def a2b_b64encode)
qed

text \<open>
  C4: for an image that Pillow can write as PNG, the encoder returns the literal prefix
  \<^verbatim>\<open>data:image/png;base64,\<close> followed by the padded base64 encoding of the PNG bytes
  (four characters for every three bytes, the last group padded).
\<close>

theorem encode_prefix_and_payload:
  assumes "png_encode img = Inr bs"
  shows "\<exists>payload. image_to_base64 png_encode img = Inr (''data:image/png;base64,'' @ payload)
           \<and> payload = map char_of_byte (b64encode bs)
           \<and> length payload = 4 * ((length bs + 2) div 3)"
  using image_to_base64_value [of png_encode img bs] assms by (simp add: length_b64encode)

theorem encode_prefix_and_payload_witness:
  "(\<lambda>px. Inr (map of_nat px)) [137, 80, 78, 71, 13, 10, 26, 10 :: nat]
      = (Inr [0x89, 0x50, 0x4E, 0x47, 0x0D, 0x0A, 0x1A, 0x0A] :: py_error + byte list)
   \<and> image_to_base64 (\<lambda>px. Inr (map of_nat px)) [137, 80, 78, 71, 13, 10, 26, 10 :: nat]
      = Inr ''data:image/png;base64,iVBORw0KGgo=''"
proof -
  let ?enc = "\<lambda>px :: nat list. (Inr (map of_nat px) :: py_error + byte list)"
  let ?img = "[137, 80, 78, 71, 13, 10, 26, 10 :: nat]"
  have h: "?enc ?img = Inr [0x89, 0x50, 0x4E, 0x47, 0x0D, 0x0A, 0x1A, 0x0A]" by simp
  have v: "map char_of_byte (b64encode [0x89, 0x50, 0x4E, 0x47, 0x0D, 0x0A, 0x1A, 0x0A])
             = ''iVBORw0KGgo=''"
    by code_simp
  from encode_prefix_and_payload [of ?enc ?img "[0x89, 0x50, 0x4E, 0x47, 0x0D, 0x0A, 0x1A, 0x0A]"] h v
  show ?thesis by simp
qed

text \<open>
  C3: for an image that Pillow writes as PNG bytes which parse back to the same image (PNG
  is lossless), stripping the prefix from the encoder's result, decoding the payload
  from base64 and parsing the bytes as PNG gives the image back.
\<close>

theorem encode_round_trip:
  assumes "png_encode img = Inr bs" and "png_parse bs = Inr img"
  shows "\<exists>uri. image_to_base64 png_encode img = Inr uri
           \<and> decode_data_uri png_parse uri = Inr img"
proof -
  have "image_to_base64 png_encode img
          = Inr (''data:image/png;base64,'' @ map char_of_byte (b64encode bs))"
    by (rule image_to_base64_value [of png_encode img bs, OF assms(1)])
  moreover
  have "decode_data_uri png_parse (''data:image/png;base64,'' @ map char_of_byte (b64encode bs))
          = Inr img"
    by (simp only: decode_data_uri_encode assms(2))
  ultimately show ?thesis by blast
qed

theorem encode_round_trip_witness:
  "(\<lambda>px. Inr (map of_nat px)) [137, 80, 78, 71 :: nat]
      = (Inr [0x89, 0x50, 0x4E, 0x47] :: py_error + byte list)
   \<and> (\<lambda>bs. Inr (map unat bs)) [0x89, 0x50, 0x4E, 0x47 :: byte]
      = (Inr [137, 80, 78, 71] :: py_error + nat list)
   \<and> (\<exists>uri. image_to_base64 (\<lambda>px. Inr (map of_nat px)) [137, 80, 78, 71 :: nat] = Inr uri
        \<and> decode_data_uri (\<lambda>bs. Inr (map unat bs)) uri
            = (Inr [137, 80, 78, 71] :: py_error + nat list))"
proof -
  let ?enc = "\<lambda>px :: nat list. (Inr (map of_nat px) :: py_error + byte list)"
  let ?dec = "\<lambda>bs :: byte list. (Inr (map unat bs) :: py_error + nat list)"
  have e: "?enc [137, 80, 78, 71] = Inr [0x89, 0x50, 0x4E, 0x47]" by simp
  have d: "?dec [0x89, 0x50, 0x4E, 0x47] = Inr [137, 80, 78, 71]" by simp
  from encode_round_trip [of ?enc "[137, 80, 78, 71]" "[0x89, 0x50, 0x4E, 0x47]" ?dec] e d
  show ?thesis by simp
qed

section \<open>Properties of the embedding requests\<close>

text \<open>
  C8: on a response whose result list is not empty, \<^verbatim>\<open>.data[0].embedding\<close> is the
  \<open>embedding\<close> field of the element at index 0, whatever the other elements are; this is
  the value of \<open>image_embedding\<close> and of \<open>text_embedding\<close> when the server answers with
  that response.
\<close>

theorem flow_consumes_first_result:
  assumes "data response \<noteq> []"
  shows "data_0_embedding response = Inr (embedding (data response ! 0))
       \<and> (\<forall>others. data_0_embedding (response\<lparr>data := data response ! 0 # others\<rparr>)
                     = data_0_embedding response)
       \<and> (\<forall>create image_uri. create (image_request image_uri) = Inr response
             \<longrightarrow> image_embedding create image_uri = Inr (embedding (data response ! 0)))
       \<and> (\<forall>create. create text_request = Inr response
             \<longrightarrow> text_embedding create = Inr (embedding (data response ! 0)))"
proof -
  from assms obtain first others where d: "data response = first # others"
    by (cases "data response") auto
  then have f: "data_0_embedding response = Inr (embedding (data response ! 0))"
    by (simp add: data_0_embedding_def)
  have o: "\<And>others'. data_0_embedding (response\<lparr>data := data response ! 0 # others'\<rparr>)
                     = data_0_embedding response"
    using d by (simp add: data_0_embedding_def)
  show ?thesis
    using f o by (simp add: image_embedding_def text_embedding_def)
qed

theorem flow_consumes_first_result_witness:
  "data \<lparr>data = [\<lparr>embedding = [1, 0], index = 0\<rparr>, \<lparr>embedding = [0, 1], index = 1\<rparr>]\<rparr> \<noteq> []
   \<and> data_0_embedding \<lparr>data = [\<lparr>embedding = [1, 0], index = 0\<rparr>, \<lparr>embedding = [0, 1], index = 1\<rparr>]\<rparr>
       = Inr [1, 0]
   \<and> image_embedding
        (\<lambda>_. Inr \<lparr>data = [\<lparr>embedding = [1, 0], index = 0\<rparr>, \<lparr>embedding = [0, 1], index = 1\<rparr>]\<rparr>)
        ''data:image/png;base64,iVBORw0KGgo=''
       = Inr [1, 0]
   \<and> text_embedding
        (\<lambda>_. Inr \<lparr>data = [\<lparr>embedding = [1, 0], index = 0\<rparr>, \<lparr>embedding = [0, 1], index = 1\<rparr>]\<rparr>)
       = Inr [1, 0]"
proof -
  let ?r = "\<lparr>data = [\<lparr>embedding = [1, 0], index = 0\<rparr>, \<lparr>embedding = [0, 1], index = 1\<rparr>]\<rparr>"
  have h: "data ?r \<noteq> []" by simp
  from flow_consumes_first_result [OF h] h show ?thesis by simp
qed

end
